theory Spec2Isabelle
  imports Complex_Main
begin

section \<open>The sprite classifier's training loop and its metric log\<close>

text \<open>
  The notebook \<^verbatim>\<open>01_intro_starter.ipynb\<close> defines \<^verbatim>\<open>train_model(config)\<close> and
  \<^verbatim>\<open>validate_model(model, valid_dl, loss_func)\<close>. Both are embedded below as
  functions that pass the state they touch explicitly: the Python locals
  (\<^verbatim>\<open>model\<close>, \<^verbatim>\<open>optimizer\<close>, \<^verbatim>\<open>example_ct\<close>) and a world holding the configuration
  object and the sequence of calls the tracking client has received.

  Python floats and tensor scalars are idealised as real numbers; Python integers
  are \<open>int\<close>. A raised exception is the \<open>Inl\<close> branch of a sum.
\<close>

subsection \<open>Data model\<close>

datatype error = ZeroDivisionError | ValueError | DataProviderError

text \<open>The \<^verbatim>\<open>SimpleNamespace\<close> of hyperparameters.\<close>

record config =
  epochs :: int
  batch_size :: int
  lr :: real
  dropout :: real
  slice_size :: int
  valid_pct :: real

text \<open>A metric record is a Python dict literal: keys in insertion order.\<close>

datatype scalar = FloatV real | IntV int

type_synonym metric_record = "(string \<times> scalar) list"

text \<open>The calls received by the tracking client, oldest first.\<close>

datatype event = Init string config | Log metric_record | Finish

record world =
  config_obj :: config
  wandb_calls :: "event list"

definition wandb_init :: "string \<Rightarrow> config \<Rightarrow> world \<Rightarrow> world" where
  "wandb_init project c w = w\<lparr>wandb_calls := wandb_calls w @ [Init project c]\<rparr>"

definition wandb_log :: "metric_record \<Rightarrow> world \<Rightarrow> world" where
  "wandb_log metrics w = w\<lparr>wandb_calls := wandb_calls w @ [Log metrics]\<rparr>"

definition wandb_finish :: "world \<Rightarrow> world" where
  "wandb_finish w = w\<lparr>wandb_calls := wandb_calls w @ [Finish]\<rparr>"

subsection \<open>The learner\<close>

text \<open>
  The network, its optimizer and their numerics belong to PyTorch. They are taken
  as parameters: \<open>'m\<close> is the state of the module (weights, running statistics,
  mode flag, random generator), \<open>'o\<close> the state of the optimizer, \<open>'x\<close> an image.
  \<open>forward\<close> is the value of \<^verbatim>\<open>model(images)\<close> where that call returns, one row of
  logits per image; \<open>optim_step\<close> is the sequence
  \<^verbatim>\<open>optimizer.zero_grad(); train_loss.backward(); optimizer.step()\<close> together with
  whatever the forward pass of that step changed in the module. Where the call of
  the model raises is said by \<open>call_training\<close> below.
\<close>

record ('m, 'o, 'x) torch =
  get_model :: "real \<Rightarrow> 'm"
  Adam :: "'m \<Rightarrow> real \<Rightarrow> 'o"
  train_mode :: "'m \<Rightarrow> 'm"
  eval_mode :: "'m \<Rightarrow> 'm"
  forward :: "'m \<Rightarrow> 'x list \<Rightarrow> real list list"
  optim_step :: "'m \<Rightarrow> 'o \<Rightarrow> 'x list \<Rightarrow> nat list \<Rightarrow> 'm \<times> 'o"

text \<open>
  \<^verbatim>\<open>nn.CrossEntropyLoss()\<close> with its default mean reduction: the mean over the
  batch of \<open>ln (\<Sum>j. exp z\<^sub>j) - z\<^sub>y\<close>. PyTorch raises when a label is not an index
  of its row and when the row counts differ; the theorems that depend on the value
  of the loss assume well-shaped batches.
\<close>

definition CrossEntropyLoss :: "real list list \<Rightarrow> nat list \<Rightarrow> real" where
  "CrossEntropyLoss outputs labels =
     (\<Sum>(z, y) \<leftarrow> zip outputs labels. ln (\<Sum>v \<leftarrow> z. exp v) - z ! y) / real (length labels)"

text \<open>
  \<^verbatim>\<open>torch.max(outputs.data, 1)\<close> keeps, for each row, the index of the first
  maximal entry.
\<close>

primrec argmax_from :: "real list \<Rightarrow> nat \<Rightarrow> nat \<Rightarrow> real \<Rightarrow> nat" where
  "argmax_from [] i best_i best = best_i"
| "argmax_from (v # vs) i best_i best =
     (if best < v then argmax_from vs (Suc i) i v else argmax_from vs (Suc i) best_i best)"

definition argmax :: "real list \<Rightarrow> nat" where
  "argmax z = (case z of [] \<Rightarrow> 0 | v # vs \<Rightarrow> argmax_from vs 1 0 v)"

subsection \<open>The data provider\<close>

text \<open>
  A \<^verbatim>\<open>DataLoader\<close>: the dataset it was built on (\<^verbatim>\<open>dl.dataset\<close>) and its batch
  size. Iterating it yields the dataset in consecutive batches, the last one
  possibly shorter; each batch is a pair (images, labels). The list is the
  dataset in the order in which the loader visits it, the same in every epoch.
  PyTorch builds no loader with batch size 0; here such a loader yields nothing.
\<close>

record 'x dataloader =
  dataset :: "('x \<times> nat) list"
  dl_batch_size :: nat

function chunks :: "nat \<Rightarrow> 'a list \<Rightarrow> 'a list list" where
  "chunks n xs = (if n = 0 \<or> xs = [] then [] else take n xs # chunks n (drop n xs))"
  by pat_completeness auto
termination
  by (relation "measure (\<lambda>(n, xs). length xs)") auto

declare chunks.simps [simp del]

definition batches :: "'x dataloader \<Rightarrow> ('x list \<times> nat list) list" where
  "batches dl = map (\<lambda>c. (map fst c, map snd c)) (chunks (dl_batch_size dl) (dataset dl))"

text \<open>
  Modelled from the spec: \<^verbatim>\<open>get_dataloaders\<close> of the \<^verbatim>\<open>utilities\<close> module, which the
  notebook imports and which is not among the sources. The spec gives its
  interface, \<^verbatim>\<open>get_dataloaders(data_dir, batch_size, slice_size, valid_fraction)\<close>
  returning the training and the validation batch stream, says that the slice
  size is the number of examples sampled from the full dataset, that the
  validation fraction of them forms the validation partition, and that a failure
  of the data provider aborts the run. \<open>data\<close> stands for the examples under the
  data directory in the order in which they are sampled; the first part of the
  slice is the training partition. Arguments outside the domain (a batch size that
  is not positive, a slice that is negative or larger than the data, a fraction
  outside \<open>[0, 1]\<close>) are a failure of the provider.
\<close>

definition get_dataloaders ::
  "('x \<times> nat) list \<Rightarrow> int \<Rightarrow> int \<Rightarrow> real \<Rightarrow> error + ('x dataloader \<times> 'x dataloader)" where
  "get_dataloaders data bs slice pct =
     (if bs \<le> 0 \<or> slice < 0 \<or> int (length data) < slice \<or> pct < 0 \<or> 1 < pct
      then Inl DataProviderError
      else
        let ds = take (nat slice) data;
            n_valid = nat \<lfloor>pct * real (length ds)\<rfloor>;
            n_train = length ds - n_valid
        in Inr (\<lparr>dataset = take n_train ds, dl_batch_size = nat bs\<rparr>,
                \<lparr>dataset = drop n_train ds, dl_batch_size = nat bs\<rparr>))"

subsection \<open>The evaluator: \<^verbatim>\<open>validate_model\<close>\<close>

text \<open>
  The loop over \<^verbatim>\<open>valid_dl\<close> with its two accumulators. \<^verbatim>\<open>labels.size(0)\<close> is the
  number of labels of the batch; \<^verbatim>\<open>(predicted == labels).sum().item()\<close> counts the
  positions at which prediction and label agree.
\<close>

fun validate_batches ::
  "('m, 'o, 'x) torch \<Rightarrow> 'm \<Rightarrow> (real list list \<Rightarrow> nat list \<Rightarrow> real) \<Rightarrow>
   ('x list \<times> nat list) list \<Rightarrow> real \<Rightarrow> int \<Rightarrow> real \<times> int" where
  "validate_batches env m loss_func [] val_loss correct = (val_loss, correct)"
| "validate_batches env m loss_func ((images, labels) # rest) val_loss correct =
     (let outputs = forward env m images;
          val_loss' = val_loss + loss_func outputs labels * real (length labels);
          predicted = map argmax outputs;
          correct' = correct + int (length (filter (\<lambda>(p, l). p = l) (zip predicted labels)))
      in validate_batches env m loss_func rest val_loss' correct')"

text \<open>
  The return statement divides both accumulators by \<^verbatim>\<open>len(valid_dl.dataset)\<close>.
  With an empty dataset no batch was seen, \<^verbatim>\<open>val_loss\<close> is still the Python float
  \<open>0.0\<close>, and the first division raises \<^verbatim>\<open>ZeroDivisionError\<close>. The call to
  \<^verbatim>\<open>model.eval()\<close> has happened by then, so the module is returned in either case.
\<close>

definition validate_model ::
  "('m, 'o, 'x) torch \<Rightarrow> 'm \<Rightarrow> 'x dataloader \<Rightarrow> (real list list \<Rightarrow> nat list \<Rightarrow> real) \<Rightarrow>
   'm \<times> (error + real \<times> real)" where
  "validate_model env m valid_dl loss_func =
     (let m' = eval_mode env m;
          (val_loss, correct) = validate_batches env m' loss_func (batches valid_dl) 0 0;
          n = length (dataset valid_dl)
      in (m', if n = 0 then Inl ZeroDivisionError
              else Inr (val_loss / real n, real_of_int correct / real n)))"

subsection \<open>The trainer: \<^verbatim>\<open>train_model\<close>\<close>

text \<open>\<^verbatim>\<open>math.ceil(len(train_dl.dataset) / config.batch_size)\<close>.\<close>

definition n_steps_per_epoch :: "nat \<Rightarrow> int \<Rightarrow> error + int" where
  "n_steps_per_epoch n bs =
     (if bs = 0 then Inl ZeroDivisionError else Inr \<lceil>real n / real_of_int bs\<rceil>)"

text \<open>
  \<^verbatim>\<open>model(images)\<close> inside the training loop. The model is the \<^verbatim>\<open>nn.Sequential\<close> of
  \<^verbatim>\<open>get_model\<close>, whose third layer is \<^verbatim>\<open>nn.BatchNorm1d(HIDDEN_SIZE)\<close>, and the loop
  runs after \<^verbatim>\<open>model.train()\<close>: in training mode that layer raises \<^verbatim>\<open>ValueError\<close>
  (more than one value per channel is expected) on a batch of exactly one
  example. After \<^verbatim>\<open>model.eval()\<close>, in \<^verbatim>\<open>validate_model\<close>, it does not.
\<close>

definition call_training :: "('m, 'o, 'x) torch \<Rightarrow> 'm \<Rightarrow> 'x list \<Rightarrow> error + real list list" where
  "call_training env m images =
     (if length images = 1 then Inl ValueError else Inr (forward env m images))"

text \<open>
  The inner loop \<^verbatim>\<open>for step, (images, labels) in enumerate(train_dl)\<close>. An exception
  of the model leaves it at once, before anything of that step is logged.
\<close>

fun train_steps ::
  "('m, 'o, 'x) torch \<Rightarrow> (real list list \<Rightarrow> nat list \<Rightarrow> real) \<Rightarrow> int \<Rightarrow>
   ('x list \<times> nat list) list \<Rightarrow> 'm \<Rightarrow> 'o \<Rightarrow> int \<Rightarrow> world \<Rightarrow> world \<times> (error + 'm \<times> 'o \<times> int)" where
  "train_steps env loss_func epoch [] m opt example_ct w = (w, Inr (m, opt, example_ct))"
| "train_steps env loss_func epoch ((images, labels) # rest) m opt example_ct w =
     (case call_training env m images of
        Inl e \<Rightarrow> (w, Inl e)
      | Inr outputs \<Rightarrow>
         (let train_loss = loss_func outputs labels;
              (m', opt') = optim_step env m opt images labels;
              example_ct' = example_ct + int (length images);
              metrics = [(''train/train_loss'', FloatV train_loss),
                         (''train/epoch'', IntV (epoch + 1)),
                         (''train/example_ct'', IntV example_ct')]
          in train_steps env loss_func epoch rest m' opt' example_ct' (wandb_log metrics w)))"

text \<open>
  The outer loop \<^verbatim>\<open>for epoch in range(config.epochs)\<close>, over the list of epoch
  indices. An exception of the training steps or of \<^verbatim>\<open>validate_model\<close> leaves the
  loop at once.
\<close>

fun epoch_loop ::
  "('m, 'o, 'x) torch \<Rightarrow> (real list list \<Rightarrow> nat list \<Rightarrow> real) \<Rightarrow> 'x dataloader \<Rightarrow> 'x dataloader \<Rightarrow>
   nat list \<Rightarrow> 'm \<Rightarrow> 'o \<Rightarrow> int \<Rightarrow> world \<Rightarrow> world \<times> (error + unit)" where
  "epoch_loop env loss_func train_dl valid_dl [] m opt example_ct w = (w, Inr ())"
| "epoch_loop env loss_func train_dl valid_dl (epoch # rest) m opt example_ct w =
     (let m1 = train_mode env m
      in case train_steps env loss_func (int epoch) (batches train_dl) m1 opt example_ct w of
           (w2, Inl e) \<Rightarrow> (w2, Inl e)
         | (w2, Inr (m2, opt2, example_ct2)) \<Rightarrow>
            (let (m3, res) = validate_model env m2 valid_dl loss_func
             in case res of
                  Inl e \<Rightarrow> (w2, Inl e)
                | Inr (val_loss, accuracy) \<Rightarrow>
                    let val_metrics = [(''val/val_loss'', FloatV val_loss),
                                       (''val/val_accuracy'', FloatV accuracy)]
                    in epoch_loop env loss_func train_dl valid_dl rest m3 opt2 example_ct2
                         (wandb_log val_metrics w2)))"

text \<open>
  \<^verbatim>\<open>train_model(config)\<close>. The configuration object is read from the world each
  time the source reads an attribute of it. The data provider is a parameter:
  \<open>provider\<close> stands for \<^verbatim>\<open>get_dataloaders\<close> applied to \<^verbatim>\<open>DATA_DIR\<close>, whatever that
  function does; \<open>get_dataloaders data\<close> is the one the spec describes.
\<close>

type_synonym 'x provider = "int \<Rightarrow> int \<Rightarrow> real \<Rightarrow> error + ('x dataloader \<times> 'x dataloader)"

definition train_model ::
  "('m, 'o, 'x) torch \<Rightarrow> 'x provider \<Rightarrow> world \<Rightarrow> world \<times> (error + unit)" where
  "train_model env provider w0 =
     (let w1 = wandb_init ''dlai_intro'' (config_obj w0) w0
      in case provider (batch_size (config_obj w1)) (slice_size (config_obj w1))
                (valid_pct (config_obj w1)) of
           Inl e \<Rightarrow> (w1, Inl e)
         | Inr (train_dl, valid_dl) \<Rightarrow>
            (case n_steps_per_epoch (length (dataset train_dl)) (batch_size (config_obj w1)) of
               Inl e \<Rightarrow> (w1, Inl e)
             | Inr n_steps \<Rightarrow>
                let model = get_model env (dropout (config_obj w1));
                    loss_func = CrossEntropyLoss;
                    optimizer = Adam env model (lr (config_obj w1));
                    example_ct = 0
                in (case epoch_loop env loss_func train_dl valid_dl
                           [0 ..< nat (epochs (config_obj w1))] model optimizer example_ct w1 of
                      (w2, Inl e) \<Rightarrow> (w2, Inl e)
                    | (w2, Inr u) \<Rightarrow> (wandb_finish w2, Inr ()))))"

text \<open>The world in which a run starts: the configuration, and a client that has seen no call.\<close>

definition fresh :: "config \<Rightarrow> world" where
  "fresh c = \<lparr>config_obj = c, wandb_calls = []\<rparr>"

subsection \<open>Reading the log\<close>

text \<open>The metric records among the calls, in call order.\<close>

fun logged :: "event list \<Rightarrow> metric_record list" where
  "logged [] = []"
| "logged (Log r # es) = r # logged es"
| "logged (Init p c # es) = logged es"
| "logged (Finish # es) = logged es"

text \<open>A record of a training step, and a validation record, told apart by their keys.\<close>

definition is_train_record :: "metric_record \<Rightarrow> bool" where
  "is_train_record r = (map fst r = [''train/train_loss'', ''train/epoch'', ''train/example_ct''])"

definition is_val_record :: "metric_record \<Rightarrow> bool" where
  "is_val_record r = (map fst r = [''val/val_loss'', ''val/val_accuracy''])"

text \<open>The running example counts that were logged, in call order.\<close>

fun example_ct_of :: "metric_record \<Rightarrow> int option" where
  "example_ct_of r = (case map_of r ''train/example_ct'' of Some (IntV n) \<Rightarrow> Some n | _ \<Rightarrow> None)"

definition example_cts :: "event list \<Rightarrow> int list" where
  "example_cts calls = List.map_filter example_ct_of (logged calls)"

subsection \<open>The run, step by step\<close>

text \<open>
  The functions of this subsection do not embed source code. They name, by epoch
  and step index, the values a run passes through, so that the theorems can say
  which record stands where in the log.
\<close>

text \<open>The number of examples in a sequence of batches.\<close>

definition seen :: "('x list \<times> nat list) list \<Rightarrow> int" where
  "seen bs = int (\<Sum>b \<leftarrow> bs. length (fst b))"

text \<open>Module and optimizer after the training steps on the given batches.\<close>

primrec steps_state :: "('m, 'o, 'x) torch \<Rightarrow> ('x list \<times> nat list) list \<Rightarrow> 'm \<times> 'o \<Rightarrow> 'm \<times> 'o" where
  "steps_state env [] s = s"
| "steps_state env (b # bs) s = steps_state env bs (optim_step env (fst s) (snd s) (fst b) (snd b))"

text \<open>
  The record of one training step: the loss of the module as it is before the
  step on the batch of the step, the 1-based epoch, the example count after it.
\<close>

definition step_record ::
  "('m, 'o, 'x) torch \<Rightarrow> (real list list \<Rightarrow> nat list \<Rightarrow> real) \<Rightarrow> int \<Rightarrow> 'x list \<times> nat list \<Rightarrow>
   'm \<Rightarrow> int \<Rightarrow> metric_record" where
  "step_record env loss_func epoch b m ct_after =
     [(''train/train_loss'', FloatV (loss_func (forward env m (fst b)) (snd b))),
      (''train/epoch'', IntV (epoch + 1)),
      (''train/example_ct'', IntV ct_after)]"

definition step_records ::
  "('m, 'o, 'x) torch \<Rightarrow> (real list list \<Rightarrow> nat list \<Rightarrow> real) \<Rightarrow> int \<Rightarrow> ('x list \<times> nat list) list \<Rightarrow>
   'm \<times> 'o \<Rightarrow> int \<Rightarrow> metric_record list" where
  "step_records env loss_func epoch bs s0 ct0 =
     map (\<lambda>i. step_record env loss_func epoch (bs ! i)
                 (fst (steps_state env (take i bs) s0)) (ct0 + seen (take (Suc i) bs)))
         [0 ..< length bs]"

text \<open>Module and optimizer when the steps of an epoch begin, end, and after its validation.\<close>

definition epoch_begin :: "('m, 'o, 'x) torch \<Rightarrow> 'm \<times> 'o \<Rightarrow> 'm \<times> 'o" where
  "epoch_begin env s = (train_mode env (fst s), snd s)"

definition epoch_end :: "('m, 'o, 'x) torch \<Rightarrow> 'x dataloader \<Rightarrow> 'm \<times> 'o \<Rightarrow> 'm \<times> 'o" where
  "epoch_end env train_dl s = steps_state env (batches train_dl) (epoch_begin env s)"

definition epoch_state :: "('m, 'o, 'x) torch \<Rightarrow> 'x dataloader \<Rightarrow> 'm \<times> 'o \<Rightarrow> 'm \<times> 'o" where
  "epoch_state env train_dl s =
     (eval_mode env (fst (epoch_end env train_dl s)), snd (epoch_end env train_dl s))"

text \<open>The validation record of a module, where \<^verbatim>\<open>validate_model\<close> returns.\<close>

definition val_record ::
  "('m, 'o, 'x) torch \<Rightarrow> (real list list \<Rightarrow> nat list \<Rightarrow> real) \<Rightarrow> 'x dataloader \<Rightarrow> 'm \<Rightarrow> metric_record" where
  "val_record env loss_func valid_dl m =
     (case snd (validate_model env m valid_dl loss_func) of
        Inr (val_loss, accuracy) \<Rightarrow>
          [(''val/val_loss'', FloatV val_loss), (''val/val_accuracy'', FloatV accuracy)]
      | Inl e \<Rightarrow> [])"

text \<open>The records of epoch \<open>e\<close>, entered in state \<open>s\<close> with count \<open>ct\<close>: its steps, then its validation.\<close>

definition epoch_records ::
  "('m, 'o, 'x) torch \<Rightarrow> (real list list \<Rightarrow> nat list \<Rightarrow> real) \<Rightarrow> 'x dataloader \<Rightarrow> 'x dataloader \<Rightarrow>
   nat \<Rightarrow> 'm \<times> 'o \<Rightarrow> int \<Rightarrow> metric_record list" where
  "epoch_records env loss_func train_dl valid_dl e s ct =
     step_records env loss_func (int e) (batches train_dl) (epoch_begin env s) ct
     @ [val_record env loss_func valid_dl (fst (epoch_end env train_dl s))]"

definition run_records ::
  "('m, 'o, 'x) torch \<Rightarrow> (real list list \<Rightarrow> nat list \<Rightarrow> real) \<Rightarrow> 'x dataloader \<Rightarrow> 'x dataloader \<Rightarrow>
   nat list \<Rightarrow> 'm \<times> 'o \<Rightarrow> int \<Rightarrow> metric_record list" where
  "run_records env loss_func train_dl valid_dl es s0 ct0 =
     concat (map (\<lambda>i. epoch_records env loss_func train_dl valid_dl (es ! i)
                        ((epoch_state env train_dl ^^ i) s0)
                        (ct0 + int i * seen (batches train_dl)))
                 [0 ..< length es])"

text \<open>Module and optimizer as \<^verbatim>\<open>train_model\<close> creates them from a configuration.\<close>

definition initial :: "('m, 'o, 'x) torch \<Rightarrow> config \<Rightarrow> 'm \<times> 'o" where
  "initial env c = (get_model env (dropout c), Adam env (get_model env (dropout c)) (lr c))"

text \<open>Module and optimizer as epoch \<open>e\<close> of a run is entered.\<close>

definition entering :: "('m, 'o, 'x) torch \<Rightarrow> 'x dataloader \<Rightarrow> config \<Rightarrow> nat \<Rightarrow> 'm \<times> 'o" where
  "entering env train_dl c e = (epoch_state env train_dl ^^ e) (initial env c)"

text \<open>The step records and the validation record of epoch \<open>e\<close> of a run.\<close>

definition epoch_steps ::
  "('m, 'o, 'x) torch \<Rightarrow> 'x dataloader \<Rightarrow> config \<Rightarrow> nat \<Rightarrow> metric_record list" where
  "epoch_steps env train_dl c e =
     step_records env CrossEntropyLoss (int e) (batches train_dl)
       (epoch_begin env (entering env train_dl c e)) (int e * seen (batches train_dl))"

definition epoch_val ::
  "('m, 'o, 'x) torch \<Rightarrow> 'x dataloader \<Rightarrow> 'x dataloader \<Rightarrow> config \<Rightarrow> nat \<Rightarrow> metric_record" where
  "epoch_val env train_dl valid_dl c e =
     val_record env CrossEntropyLoss valid_dl (fst (epoch_end env train_dl (entering env train_dl c e)))"

text \<open>The example counts after each of a sequence of batches, counting on from \<open>ct\<close>.\<close>

primrec running_sums :: "int \<Rightarrow> ('x list \<times> nat list) list \<Rightarrow> int list" where
  "running_sums ct [] = []"
| "running_sums ct (b # bs) = (ct + int (length (fst b))) # running_sums (ct + int (length (fst b))) bs"

text \<open>
  The batches before the first one on which the model raises in training mode,
  and whether there is none on which it raises.
\<close>

definition trainable :: "('x list \<times> nat list) list \<Rightarrow> ('x list \<times> nat list) list" where
  "trainable bs = takeWhile (\<lambda>b. length (fst b) \<noteq> 1) bs"

definition all_trainable :: "('x list \<times> nat list) list \<Rightarrow> bool" where
  "all_trainable bs = list_all (\<lambda>b. length (fst b) \<noteq> 1) bs"

text \<open>
  Whether a run that got these loaders ends without an exception: the batch size
  is not 0, and there is no epoch to run or else the model raises on no training
  batch and the validation dataset is not empty.
\<close>

definition completes :: "'x dataloader \<Rightarrow> 'x dataloader \<Rightarrow> config \<Rightarrow> bool" where
  "completes train_dl valid_dl c =
     (batch_size c \<noteq> 0 \<and>
      (epochs c \<le> 0 \<or> all_trainable (batches train_dl) \<and> dataset valid_dl \<noteq> []))"

text \<open>
  The exception that ends a run which does not complete: of the division in
  \<^verbatim>\<open>n_steps_per_epoch\<close>, of the model on a training batch, or of the division in
  \<^verbatim>\<open>validate_model\<close>.
\<close>

definition failure :: "'x dataloader \<Rightarrow> 'x dataloader \<Rightarrow> config \<Rightarrow> error" where
  "failure train_dl valid_dl c =
     (if batch_size c = 0 then ZeroDivisionError
      else if \<not> all_trainable (batches train_dl) then ValueError
      else ZeroDivisionError)"

text \<open>
  The batches a run trains on, in order, given the loaders it got: none when the
  batch size is 0 and \<^verbatim>\<open>n_steps_per_epoch\<close> raises, or when there is no epoch; those
  of the first epoch up to the one on which the model raises; only the first
  epoch's when the validation that follows it raises; else every epoch's.
\<close>

definition processed :: "'x dataloader \<Rightarrow> 'x dataloader \<Rightarrow> config \<Rightarrow> ('x list \<times> nat list) list" where
  "processed train_dl valid_dl c =
     (if batch_size c = 0 \<or> epochs c \<le> 0 then []
      else if \<not> all_trainable (batches train_dl) then trainable (batches train_dl)
      else if dataset valid_dl = [] then batches train_dl
      else concat (replicate (nat (epochs c)) (batches train_dl)))"

text \<open>
  The records of a run that nothing interrupts, epoch after epoch, and the number
  of them that a run logs.
\<close>

definition run_plan ::
  "('m, 'o, 'x) torch \<Rightarrow> 'x dataloader \<Rightarrow> 'x dataloader \<Rightarrow> config \<Rightarrow> metric_record list" where
  "run_plan env train_dl valid_dl c =
     concat (map (\<lambda>e. epoch_steps env train_dl c e @ [epoch_val env train_dl valid_dl c e])
                 [0 ..< nat (epochs c)])"

definition n_logged :: "'x dataloader \<Rightarrow> 'x dataloader \<Rightarrow> config \<Rightarrow> nat" where
  "n_logged train_dl valid_dl c =
     (if completes train_dl valid_dl c then nat (epochs c) * Suc (length (batches train_dl))
      else length (processed train_dl valid_dl c))"

subsection \<open>A small learner and small runs\<close>

text \<open>
  A learner over images that are numbers: its state counts the steps taken, a
  row of logits prefers class 1 for odd images and class 0 for even ones.
\<close>

definition toy :: "(nat, nat, nat) torch" where
  "toy = \<lparr>get_model = (\<lambda>d. 0), Adam = (\<lambda>m r. 0), train_mode = (\<lambda>m. m), eval_mode = (\<lambda>m. m),
          forward = (\<lambda>m xs. map (\<lambda>x. if odd x then [0, 1] else [1, 0]) xs),
          optim_step = (\<lambda>m opt xs ys. (Suc m, Suc opt))\<rparr>"

text \<open>Four labelled images.\<close>

definition four :: "(nat \<times> nat) list" where
  "four = [(0, 0), (1, 1), (2, 1), (3, 1)]"

text \<open>
  Two epochs over the four images in batches of two, a quarter of them held out:
  the second training batch has one example.
\<close>

definition cfg_small :: config where
  "cfg_small = \<lparr>epochs = 2, batch_size = 2, lr = 1 / 1000, dropout = 1 / 2,
                slice_size = 4, valid_pct = 1 / 4\<rparr>"

text \<open>One epoch over the four images in batches of two, with nothing held out for validation.\<close>

definition cfg_no_valid :: config where
  "cfg_no_valid = cfg_small\<lparr>epochs := 1, valid_pct := 0\<rparr>"

text \<open>Five labelled images, and two epochs over them in batches of two, a fifth of them held out.\<close>

definition five :: "(nat \<times> nat) list" where
  "five = [(0, 0), (1, 1), (2, 1), (3, 1), (4, 0)]"

definition cfg_good :: config where
  "cfg_good = cfg_small\<lparr>slice_size := 5, valid_pct := 1 / 5\<rparr>"

text \<open>The loaders the data provider returns for the three small configurations.\<close>

definition train_small :: "nat dataloader" where
  "train_small = \<lparr>dataset = [(0, 0), (1, 1), (2, 1)], dl_batch_size = 2\<rparr>"

definition held_small :: "nat dataloader" where
  "held_small = \<lparr>dataset = [(3, 1)], dl_batch_size = 2\<rparr>"

definition train_all :: "nat dataloader" where
  "train_all = \<lparr>dataset = [(0, 0), (1, 1), (2, 1), (3, 1)], dl_batch_size = 2\<rparr>"

definition held_none :: "nat dataloader" where
  "held_none = \<lparr>dataset = [], dl_batch_size = 2\<rparr>"

definition held_good :: "nat dataloader" where
  "held_good = \<lparr>dataset = [(4, 0)], dl_batch_size = 2\<rparr>"

text \<open>The configuration of the spec's example scenario.\<close>

definition cfg_example :: config where
  "cfg_example = \<lparr>epochs = 1, batch_size = 128, lr = 1 / 1000, dropout = 1 / 10,
                  slice_size = 10000, valid_pct = 2 / 10\<rparr>"

text \<open>A validation loader over the four images, in batches of three.\<close>

definition valid_small :: "nat dataloader" where
  "valid_small = \<lparr>dataset = four, dl_batch_size = 3\<rparr>"

subsection \<open>Well-shaped batches\<close>

text \<open>
  Every label that meets a row of logits is an index of that row. PyTorch raises
  on a batch that is not so.
\<close>

definition well_shaped :: "('m, 'o, 'x) torch \<Rightarrow> 'm \<Rightarrow> 'x dataloader \<Rightarrow> bool" where
  "well_shaped env m dl =
     list_all (\<lambda>(images, labels). list_all (\<lambda>(z, y). y < length z) (zip (forward env m images) labels))
       (batches dl)"

section \<open>Properties\<close>

subsection \<open>Batching\<close>

lemma chunks_Nil: "chunks n [] = []"
  by (simp add: chunks.simps)

lemma chunks_0: "chunks 0 xs = []"
  by (simp add: chunks.simps)

lemma chunks_step: "0 < n \<Longrightarrow> xs \<noteq> [] \<Longrightarrow> chunks n xs = take n xs # chunks n (drop n xs)"
  by (subst chunks.simps) simp

lemma concat_chunks: "0 < n \<Longrightarrow> concat (chunks n xs) = xs"
proof (induction n xs rule: chunks.induct)
  case (1 n xs)
  show ?case
  proof (cases "xs = []")
    case True
    then show ?thesis by (simp add: chunks_Nil)
  next
    case False
    with 1 show ?thesis by (simp add: chunks_step)
  qed
qed

lemma set_chunks_nonempty: "c \<in> set (chunks n xs) \<Longrightarrow> c \<noteq> []"
proof (induction n xs rule: chunks.induct)
  case (1 n xs)
  show ?case
  proof (cases "n = 0 \<or> xs = []")
    case True
    with 1(2) show ?thesis by (auto simp: chunks.simps)
  next
    case False
    with 1 show ?thesis by (auto simp: chunks_step)
  qed
qed

lemma sum_length_chunks: "(\<Sum>c \<leftarrow> chunks n xs. length c) = (if n = 0 then 0 else length xs)"
proof (cases "n = 0")
  case True
  then show ?thesis by (simp add: chunks_0)
next
  case False
  then have "length (concat (chunks n xs)) = length xs" by (simp add: concat_chunks)
  with False show ?thesis by (simp add: length_concat)
qed

lemma length_chunks: "0 < n \<Longrightarrow> int (length (chunks n xs)) = \<lceil>real (length xs) / real n\<rceil>"
proof (induction n xs rule: chunks.induct)
  case (1 n xs)
  note n = \<open>0 < n\<close>
  show ?case
  proof (cases "xs = []")
    case True
    then show ?thesis by (simp add: chunks_Nil)
  next
    case False
    then have pos: "0 < length xs" by simp
    show ?thesis
    proof (cases "length xs \<le> n")
      case True
      with False n have "chunks n xs = [xs]"
        by (simp add: chunks_step chunks_Nil)
      moreover have "\<lceil>real (length xs) / real n\<rceil> = 1"
      proof (rule ceiling_unique)
        show "real_of_int 1 - 1 < real (length xs) / real n" using pos n by simp
        show "real (length xs) / real n \<le> real_of_int 1" using True n by simp
      qed
      ultimately show ?thesis by simp
    next
      case gt: False
      then have "real (length xs - n) / real n = real (length xs) / real n - 1"
        using n by (simp add: of_nat_diff diff_divide_distrib)
      then have "\<lceil>real (length (drop n xs)) / real n\<rceil> = \<lceil>real (length xs) / real n\<rceil> - 1"
        by simp
      moreover have "int (length (chunks n (drop n xs))) = \<lceil>real (length (drop n xs)) / real n\<rceil>"
        using 1 False n by simp
      ultimately show ?thesis using False n by (simp add: chunks_step)
    qed
  qed
qed

subsection \<open>The two inner loops in closed form\<close>

lemma seen_Nil: "seen [] = 0"
  by (simp add: seen_def)

lemma seen_Cons: "seen (b # bs) = int (length (fst b)) + seen bs"
  by (simp add: seen_def)

lemma step_records_Nil: "step_records env lf epoch [] s ct = []"
  by (simp add: step_records_def)

lemma step_records_Cons:
  "step_records env lf epoch (b # bs) s ct =
     step_record env lf epoch b (fst s) (ct + int (length (fst b)))
     # step_records env lf epoch bs (optim_step env (fst s) (snd s) (fst b) (snd b))
         (ct + int (length (fst b)))"
proof -
  have "[0 ..< length (b # bs)] = 0 # map Suc [0 ..< length bs]"
    by (simp add: upt_conv_Cons map_Suc_upt del: upt_Suc)
  then show ?thesis
    by (simp add: step_records_def seen_Cons seen_Nil add.assoc o_def del: upt_Suc)
qed

lemma length_step_records: "length (step_records env lf epoch bs s ct) = length bs"
  by (simp add: step_records_def)

lemma validate_batches_eq:
  "validate_batches env m lf bs a c =
     (a + (\<Sum>(images, labels) \<leftarrow> bs. lf (forward env m images) labels * real (length labels)),
      c + int (\<Sum>(images, labels) \<leftarrow> bs.
                 length (filter (\<lambda>(z, y). argmax z = y) (zip (forward env m images) labels))))"
proof (induction bs arbitrary: a c)
  case Nil
  then show ?case by simp
next
  case (Cons b bs)
  obtain images labels where b: "b = (images, labels)" by (cases b)
  have cnt: "length (filter (\<lambda>(p, l). p = l) (zip (map argmax (forward env m images)) labels))
           = length (filter (\<lambda>(z, y). argmax z = y) (zip (forward env m images) labels))"
    by (simp add: zip_map1 filter_map o_def case_prod_unfold)
  show ?case
    by (simp add: b Cons.IH cnt Let_def)
qed

subsection \<open>The evaluator in closed form\<close>

lemma validate_model_fst: "fst (validate_model env m valid_dl lf) = eval_mode env m"
  by (simp add: validate_model_def Let_def split: prod.splits)

lemma validate_model_empty:
  "dataset valid_dl = [] \<Longrightarrow> snd (validate_model env m valid_dl lf) = Inl ZeroDivisionError"
  by (simp add: validate_model_def Let_def split: prod.splits)

lemma validate_model_nonempty:
  "dataset valid_dl \<noteq> [] \<Longrightarrow>
   snd (validate_model env m valid_dl lf) =
     Inr ((\<Sum>(images, labels) \<leftarrow> batches valid_dl.
             lf (forward env (eval_mode env m) images) labels * real (length labels))
          / real (length (dataset valid_dl)),
          real (\<Sum>(images, labels) \<leftarrow> batches valid_dl.
             length (filter (\<lambda>(z, y). argmax z = y)
                       (zip (forward env (eval_mode env m) images) labels)))
          / real (length (dataset valid_dl)))"
  by (simp add: validate_model_def Let_def validate_batches_eq)

lemma val_record_nonempty:
  "dataset valid_dl \<noteq> [] \<Longrightarrow> validate_model env m valid_dl lf = (m3, res) \<Longrightarrow>
   \<exists>l a. res = Inr (l, a) \<and> val_record env lf valid_dl m = [(''val/val_loss'', FloatV l), (''val/val_accuracy'', FloatV a)]"
  using validate_model_nonempty [of valid_dl env m lf]
  by (auto simp: val_record_def)

lemma run_records_Nil: "run_records env lf train_dl valid_dl [] s ct = []"
  by (simp add: run_records_def)

lemma run_records_Cons:
  "run_records env lf train_dl valid_dl (e # es) s ct =
     epoch_records env lf train_dl valid_dl e s ct
     @ run_records env lf train_dl valid_dl es (epoch_state env train_dl s)
         (ct + seen (batches train_dl))"
proof -
  have "[0 ..< length (e # es)] = 0 # map Suc [0 ..< length es]"
    by (simp add: upt_conv_Cons map_Suc_upt del: upt_Suc)
  then show ?thesis
    by (simp add: run_records_def o_def funpow_swap1 distrib_right add.assoc del: upt_Suc)
qed

subsection \<open>The data provider\<close>

lemma get_dataloaders_Inr:
  assumes "get_dataloaders data bs slice pct = Inr (train_dl, valid_dl)"
  shows "0 < bs" and "dl_batch_size train_dl = nat bs" and "dl_batch_size valid_dl = nat bs"
    and "length (dataset valid_dl) = nat \<lfloor>pct * real (nat slice)\<rfloor>"
    and "length (dataset train_dl) = nat slice - nat \<lfloor>pct * real (nat slice)\<rfloor>"
    and "dataset train_dl @ dataset valid_dl = take (nat slice) data"
proof -
  define ds where "ds = take (nat slice) data"
  define v where "v = nat \<lfloor>pct * real (length ds)\<rfloor>"
  from assms have dom: "0 < bs" "0 \<le> slice" "slice \<le> int (length data)" "0 \<le> pct" "pct \<le> 1"
    by (auto simp: get_dataloaders_def split: if_splits)
  from assms dom have tr: "train_dl = \<lparr>dataset = take (length ds - v) ds, dl_batch_size = nat bs\<rparr>"
    and va: "valid_dl = \<lparr>dataset = drop (length ds - v) ds, dl_batch_size = nat bs\<rparr>"
    by (simp_all add: get_dataloaders_def Let_def ds_def v_def)
  from dom have len: "length ds = nat slice" by (simp add: ds_def)
  have "pct * real (length ds) \<le> 1 * real (length ds)"
    using dom(5) by (intro mult_right_mono) simp_all
  then have "\<lfloor>pct * real (length ds)\<rfloor> \<le> int (length ds)"
    by (simp add: floor_le_iff)
  then have le: "v \<le> length ds" by (simp add: v_def nat_le_iff)
  show "0 < bs" by (rule dom(1))
  show "dl_batch_size train_dl = nat bs" by (simp add: tr)
  show "dl_batch_size valid_dl = nat bs" by (simp add: va)
  show "length (dataset valid_dl) = nat \<lfloor>pct * real (nat slice)\<rfloor>"
    using le len by (simp add: va v_def)
  show "length (dataset train_dl) = nat slice - nat \<lfloor>pct * real (nat slice)\<rfloor>"
    using le len by (simp add: tr v_def)
  have "dataset train_dl @ dataset valid_dl = ds"
    by (simp add: tr va)
  then show "dataset train_dl @ dataset valid_dl = take (nat slice) data"
    by (simp only: ds_def)
qed

lemma get_dataloaders_Inl:
  "get_dataloaders data bs slice pct = Inl e \<Longrightarrow> e = DataProviderError"
  by (auto simp: get_dataloaders_def Let_def split: if_splits)

lemma length_batches:
  "0 < dl_batch_size dl \<Longrightarrow>
   int (length (batches dl)) = \<lceil>real (length (dataset dl)) / real (dl_batch_size dl)\<rceil>"
  by (simp add: batches_def length_chunks)

lemma seen_batches:
  "0 < dl_batch_size dl \<Longrightarrow> seen (batches dl) = int (length (dataset dl))"
proof -
  assume "0 < dl_batch_size dl"
  then have "(\<Sum>c \<leftarrow> chunks (dl_batch_size dl) (dataset dl). length c) = length (dataset dl)"
    by (simp add: sum_length_chunks)
  then show ?thesis
    by (simp add: seen_def batches_def o_def)
qed

subsection \<open>Counting and indexing the records of a run\<close>

lemma logged_append: "logged (xs @ ys) = logged xs @ logged ys"
  by (induction xs rule: logged.induct) simp_all

lemma logged_map_Log: "logged (map Log rs) = rs"
  by (induction rs) simp_all

lemma is_train_step_record: "is_train_record (step_record env lf epoch b m ct)"
  and not_val_step_record: "\<not> is_val_record (step_record env lf epoch b m ct)"
  by (simp_all add: is_train_record_def is_val_record_def step_record_def)

lemma filter_train_step_records:
  "filter is_train_record (step_records env lf epoch bs s ct) = step_records env lf epoch bs s ct"
  and filter_val_step_records:
  "filter is_val_record (step_records env lf epoch bs s ct) = []"
  by (simp_all add: step_records_def filter_map o_def is_train_step_record not_val_step_record)

lemma val_record_is_val:
  assumes "dataset valid_dl \<noteq> []"
  shows "is_val_record (val_record env lf valid_dl m)"
    and "\<not> is_train_record (val_record env lf valid_dl m)"
    and "example_ct_of (val_record env lf valid_dl m) = None"
  using validate_model_nonempty [OF assms, of env m lf]
  by (simp_all add: val_record_def is_val_record_def is_train_record_def)

lemma length_epoch_records:
  "length (epoch_records env lf train_dl valid_dl e s ct) = Suc (length (batches train_dl))"
  by (simp add: epoch_records_def length_step_records)

lemma length_run_records:
  "length (run_records env lf train_dl valid_dl es s ct) = length es * Suc (length (batches train_dl))"
  by (induction es arbitrary: s ct) (simp_all add: run_records_Nil run_records_Cons length_epoch_records)

lemma count_run_records:
  assumes "dataset valid_dl \<noteq> []"
  shows "length (filter is_train_record (run_records env lf train_dl valid_dl es s ct))
           = length es * length (batches train_dl)"
    and "length (filter is_val_record (run_records env lf train_dl valid_dl es s ct)) = length es"
  by (induction es arbitrary: s ct)
    (simp_all add: run_records_Nil run_records_Cons epoch_records_def val_record_is_val [OF assms]
      filter_train_step_records filter_val_step_records length_step_records)

lemma nth_concat_uniform:
  "(\<forall>xs \<in> set xss. length xs = m) \<Longrightarrow> i < length xss \<Longrightarrow> j < m \<Longrightarrow>
   concat xss ! (i * m + j) = xss ! i ! j"
proof (induction xss arbitrary: i)
  case Nil
  then show ?case by simp
next
  case (Cons xs xss)
  show ?case
  proof (cases i)
    case 0
    with Cons.prems show ?thesis by (simp add: nth_append)
  next
    case (Suc k)
    with Cons.prems have "concat xss ! (k * m + j) = xss ! k ! j"
      by (intro Cons.IH) simp_all
    moreover from Cons.prems have "length xs = m" by simp
    ultimately show ?thesis using Suc by (simp add: nth_append)
  qed
qed

lemma run_records_upt:
  "run_records env lf train_dl valid_dl [0 ..< E] s0 ct0 =
     concat (map (\<lambda>e. epoch_records env lf train_dl valid_dl e
                        ((epoch_state env train_dl ^^ e) s0)
                        (ct0 + int e * seen (batches train_dl)))
                 [0 ..< E])"
proof -
  have "map (\<lambda>i. epoch_records env lf train_dl valid_dl ([0 ..< E] ! i)
                        ((epoch_state env train_dl ^^ i) s0)
                        (ct0 + int i * seen (batches train_dl))) [0 ..< E]
      = map (\<lambda>e. epoch_records env lf train_dl valid_dl e
                        ((epoch_state env train_dl ^^ e) s0)
                        (ct0 + int e * seen (batches train_dl))) [0 ..< E]"
    by (rule map_cong) simp_all
  then show ?thesis by (simp only: run_records_def length_upt diff_zero)
qed

lemma run_records_nth:
  assumes "e < E" and "k < length (batches train_dl)"
  shows "run_records env lf train_dl valid_dl [0 ..< E] s0 ct0 ! (e * Suc (length (batches train_dl)) + k)
       = step_record env lf (int e) (batches train_dl ! k)
           (fst (steps_state env (take k (batches train_dl))
                  (epoch_begin env ((epoch_state env train_dl ^^ e) s0))))
           (ct0 + int e * seen (batches train_dl) + seen (take (Suc k) (batches train_dl)))"
proof -
  let ?n = "length (batches train_dl)"
  let ?blocks = "map (\<lambda>e. epoch_records env lf train_dl valid_dl e
                        ((epoch_state env train_dl ^^ e) s0)
                        (ct0 + int e * seen (batches train_dl))) [0 ..< E]"
  have u: "\<forall>xs \<in> set ?blocks. length xs = Suc ?n"
    by (auto simp: length_epoch_records)
  have "concat ?blocks ! (e * Suc ?n + k) = ?blocks ! e ! k"
    using u assms by (intro nth_concat_uniform) simp_all
  also have "\<dots> = step_records env lf (int e) (batches train_dl)
                     (epoch_begin env ((epoch_state env train_dl ^^ e) s0))
                     (ct0 + int e * seen (batches train_dl)) ! k"
    using assms by (simp add: epoch_records_def nth_append length_step_records)
  also have "\<dots> = step_record env lf (int e) (batches train_dl ! k)
           (fst (steps_state env (take k (batches train_dl))
                  (epoch_begin env ((epoch_state env train_dl ^^ e) s0))))
           (ct0 + int e * seen (batches train_dl) + seen (take (Suc k) (batches train_dl)))"
    using assms by (simp add: step_records_def)
  finally show ?thesis by (simp only: run_records_upt)
qed

subsection \<open>The epochs of a run\<close>


lemma entering_0: "entering env train_dl c 0 = initial env c"
  by (simp add: entering_def)

lemma steps_per_epoch:
  assumes gd: "get_dataloaders data (batch_size c) (slice_size c) (valid_pct c) = Inr (train_dl, valid_dl)"
  shows "n_steps_per_epoch (length (dataset train_dl)) (batch_size c)
           = Inr \<lceil>real (length (dataset train_dl)) / real_of_int (batch_size c)\<rceil>"
    and "int (length (batches train_dl))
           = \<lceil>real (length (dataset train_dl)) / real_of_int (batch_size c)\<rceil>"
    and "batch_size c \<noteq> 0"
proof -
  from get_dataloaders_Inr(1,2) [OF gd] have bs: "0 < batch_size c"
    and dbs: "dl_batch_size train_dl = nat (batch_size c)" by simp_all
  from bs show "batch_size c \<noteq> 0" by simp
  show "n_steps_per_epoch (length (dataset train_dl)) (batch_size c)
           = Inr \<lceil>real (length (dataset train_dl)) / real_of_int (batch_size c)\<rceil>"
    using bs by (simp add: n_steps_per_epoch_def)
  show "int (length (batches train_dl))
           = \<lceil>real (length (dataset train_dl)) / real_of_int (batch_size c)\<rceil>"
    using bs dbs by (simp add: length_batches)
qed

subsection \<open>The logged example counts\<close>

lemma map_filter_append: "List.map_filter f (xs @ ys) = List.map_filter f xs @ List.map_filter f ys"
  by (simp add: List.map_filter_def)

lemma example_ct_of_step_record: "example_ct_of (step_record env lf epoch b m ct) = Some ct"
  by (simp add: step_record_def)

lemma example_cts_step_records:
  "List.map_filter example_ct_of (step_records env lf epoch bs s ct) = running_sums ct bs"
  by (induction bs arbitrary: s ct)
    (simp_all add: step_records_Nil step_records_Cons List.map_filter_simps
      example_ct_of_step_record del: example_ct_of.simps)

lemma running_sums_append:
  "running_sums ct (bs @ cs) = running_sums ct bs @ running_sums (ct + seen bs) cs"
  by (induction bs arbitrary: ct) (simp_all add: seen_Nil seen_Cons add.assoc)

lemma example_cts_run_records:
  assumes "dataset valid_dl \<noteq> []"
  shows "List.map_filter example_ct_of (run_records env lf train_dl valid_dl es s ct)
       = running_sums ct (concat (replicate (length es) (batches train_dl)))"
  by (induction es arbitrary: s ct)
    (simp_all add: run_records_Nil run_records_Cons epoch_records_def map_filter_append
      example_cts_step_records running_sums_append List.map_filter_simps
      val_record_is_val(3) [OF assms] del: example_ct_of.simps)

lemma length_running_sums: "length (running_sums ct bs) = length bs"
  by (induction bs arbitrary: ct) simp_all

lemma running_sums_nth:
  "k < length bs \<Longrightarrow> running_sums ct bs ! k = ct + seen (take (Suc k) bs)"
proof (induction bs arbitrary: ct k)
  case Nil
  then show ?case by simp
next
  case (Cons b bs)
  show ?case
  proof (cases k)
    case 0
    then show ?thesis by (simp add: seen_Cons seen_Nil)
  next
    case (Suc j)
    with Cons.prems have "j < length bs" by simp
    then have "running_sums (ct + int (length (fst b))) bs ! j
             = ct + int (length (fst b)) + seen (take (Suc j) bs)"
      by (rule Cons.IH)
    with Suc show ?thesis by (simp add: seen_Cons)
  qed
qed

lemma running_sums_ge: "x \<in> set (running_sums ct bs) \<Longrightarrow> ct \<le> x"
proof (induction bs arbitrary: ct)
  case Nil
  then show ?case by simp
next
  case (Cons b bs)
  from Cons.prems have "x = ct + int (length (fst b)) \<or> x \<in> set (running_sums (ct + int (length (fst b))) bs)"
    by simp
  then show ?case
  proof
    assume "x = ct + int (length (fst b))"
    then show ?thesis by simp
  next
    assume "x \<in> set (running_sums (ct + int (length (fst b))) bs)"
    then have "ct + int (length (fst b)) \<le> x" by (rule Cons.IH)
    then show ?thesis by simp
  qed
qed

lemma sorted_running_sums: "sorted (running_sums ct bs)"
  by (induction bs arbitrary: ct) (auto dest: running_sums_ge)

subsection \<open>The trainer in closed form\<close>

lemma trainable_Nil: "trainable [] = []" "all_trainable []"
  by (simp_all add: trainable_def all_trainable_def)

lemma trainable_Cons:
  "trainable (b # bs) = (if length (fst b) = 1 then [] else b # trainable bs)"
  "all_trainable (b # bs) = (length (fst b) \<noteq> 1 \<and> all_trainable bs)"
  by (simp_all add: trainable_def all_trainable_def)

lemma trainable_all: "all_trainable bs \<Longrightarrow> trainable bs = bs"
  by (simp add: trainable_def all_trainable_def list_all_iff)

lemma trainable_take: "trainable bs = take (length (trainable bs)) bs"
  unfolding trainable_def by (rule takeWhile_eq_take)

lemma length_trainable_le: "length (trainable bs) \<le> length bs"
  unfolding trainable_def by (rule length_takeWhile_le)

lemma length_chunk:
  "0 < n \<Longrightarrow> c \<in> set (chunks n xs) \<Longrightarrow> length c = n \<or> length c = length xs mod n"
proof (induction n xs rule: chunks.induct)
  case (1 n xs)
  show ?case
  proof (cases "xs = []")
    case True
    with 1(3) show ?thesis by (simp add: chunks_Nil)
  next
    case False
    with 1(2,3) have "c = take n xs \<or> c \<in> set (chunks n (drop n xs))"
      by (simp add: chunks_step)
    then show ?thesis
    proof
      assume "c = take n xs"
      then show ?thesis by (cases "n \<le> length xs") (simp_all add: min_def)
    next
      assume mem: "c \<in> set (chunks n (drop n xs))"
      then have "drop n xs \<noteq> []" by (auto simp: chunks_Nil)
      then have le: "n \<le> length xs" by simp
      from 1(1) [OF _ 1(2) mem] False 1(2)
      have "length c = n \<or> length c = (length xs - n) mod n" by simp
      with le show ?thesis by (simp add: le_mod_geq)
    qed
  qed
qed

lemma all_trainable_batches:
  assumes "1 < dl_batch_size dl" and "length (dataset dl) mod dl_batch_size dl \<noteq> 1"
  shows "all_trainable (batches dl)"
proof -
  have "length c \<noteq> 1" if "c \<in> set (chunks (dl_batch_size dl) (dataset dl))" for c
    using length_chunk [of "dl_batch_size dl" c "dataset dl"] that assms by auto
  then show ?thesis
    by (auto simp: all_trainable_def batches_def list_all_iff)
qed

lemma train_steps_eq:
  "train_steps env lf epoch bs m opt ct w =
     (w\<lparr>wandb_calls := wandb_calls w @ map Log (step_records env lf epoch (trainable bs) (m, opt) ct)\<rparr>,
      if all_trainable bs
      then Inr (fst (steps_state env bs (m, opt)), snd (steps_state env bs (m, opt)), ct + seen bs)
      else Inl ValueError)"
proof (induction bs arbitrary: m opt ct w)
  case Nil
  then show ?case by (simp add: seen_Nil step_records_Nil trainable_Nil)
next
  case (Cons b bs)
  obtain images labels where b: "b = (images, labels)" by (cases b)
  obtain m' opt' where st: "optim_step env m opt images labels = (m', opt')"
    by (cases "optim_step env m opt images labels")
  show ?case
  proof (cases "length images = 1")
    case True
    then show ?thesis
      by (simp add: b call_training_def trainable_Cons step_records_Nil)
  next
    case False
    then show ?thesis
      by (simp add: b st call_training_def trainable_Cons Cons.IH step_records_Cons seen_Cons
          wandb_log_def step_record_def Let_def add.assoc)
  qed
qed

lemma step_records_take:
  "k \<le> length bs \<Longrightarrow>
   step_records env lf epoch (take k bs) s ct = take k (step_records env lf epoch bs s ct)"
proof -
  assume k: "k \<le> length bs"
  have "map (\<lambda>i. step_record env lf epoch (take k bs ! i)
                 (fst (steps_state env (take i (take k bs)) s)) (ct + seen (take (Suc i) (take k bs))))
          [0 ..< k]
      = map (\<lambda>i. step_record env lf epoch (bs ! i)
                 (fst (steps_state env (take i bs) s)) (ct + seen (take (Suc i) bs)))
          [0 ..< k]"
    by (rule map_cong) (simp_all add: min_def)
  with k show ?thesis
    by (simp add: step_records_def take_map min_def)
qed

lemma epoch_loop_ok:
  assumes tr: "all_trainable (batches train_dl)" and ne: "dataset valid_dl \<noteq> []"
  shows "epoch_loop env lf train_dl valid_dl es m opt ct w =
     (w\<lparr>wandb_calls := wandb_calls w @ map Log (run_records env lf train_dl valid_dl es (m, opt) ct)\<rparr>,
      Inr ())"
proof (induction es arbitrary: m opt ct w)
  case Nil
  then show ?case by (simp add: run_records_Nil)
next
  case (Cons e es)
  let ?s2 = "epoch_end env train_dl (m, opt)"
  obtain m3 res where v: "validate_model env (fst ?s2) valid_dl lf = (m3, res)"
    by (cases "validate_model env (fst ?s2) valid_dl lf")
  from val_record_nonempty [OF ne v] obtain l a where
    res: "res = Inr (l, a)" and
    rec: "val_record env lf valid_dl (fst ?s2) = [(''val/val_loss'', FloatV l), (''val/val_accuracy'', FloatV a)]"
    by blast
  from v have m3: "m3 = eval_mode env (fst ?s2)"
    using validate_model_fst [of env "fst ?s2" valid_dl lf] by simp
  have st: "epoch_state env train_dl (m, opt) = (m3, snd ?s2)"
    by (simp add: epoch_state_def m3)
  have v': "validate_model env (fst (steps_state env (batches train_dl) (train_mode env m, opt))) valid_dl lf = (m3, Inr (l, a))"
    using v res by (simp add: epoch_end_def epoch_begin_def)
  show ?case
    using rec
    by (simp add: train_steps_eq tr trainable_all v' Cons.IH run_records_Cons st epoch_records_def
        wandb_log_def epoch_end_def epoch_begin_def Let_def)
qed

lemma epoch_loop_fail:
  assumes tr: "all_trainable (batches train_dl)" and emp: "dataset valid_dl = []"
  shows "epoch_loop env lf train_dl valid_dl (e # es) m opt ct w =
     (w\<lparr>wandb_calls := wandb_calls w @
          map Log (step_records env lf (int e) (batches train_dl) (epoch_begin env (m, opt)) ct)\<rparr>,
      Inl ZeroDivisionError)"
proof -
  let ?s2 = "steps_state env (batches train_dl) (train_mode env m, opt)"
  obtain m3 res where v: "validate_model env (fst ?s2) valid_dl lf = (m3, res)"
    by (cases "validate_model env (fst ?s2) valid_dl lf")
  with validate_model_empty [OF emp, of env "fst ?s2" lf] have "res = Inl ZeroDivisionError"
    by simp
  with v show ?thesis
    by (simp add: train_steps_eq tr trainable_all epoch_begin_def Let_def)
qed

lemma epoch_loop_raise:
  assumes "\<not> all_trainable (batches train_dl)"
  shows "epoch_loop env lf train_dl valid_dl (e # es) m opt ct w =
     (w\<lparr>wandb_calls := wandb_calls w @
          map Log (step_records env lf (int e) (trainable (batches train_dl))
                     (epoch_begin env (m, opt)) ct)\<rparr>,
      Inl ValueError)"
  using assms by (simp add: train_steps_eq epoch_begin_def Let_def)

lemma run_records_plan:
  "run_records env CrossEntropyLoss train_dl valid_dl [0 ..< nat (epochs c)] (initial env c) 0
     = run_plan env train_dl valid_dl c"
  by (simp add: run_records_upt run_plan_def epoch_records_def epoch_steps_def epoch_val_def
      entering_def)

lemma length_run_plan:
  "length (run_plan env train_dl valid_dl c) = nat (epochs c) * Suc (length (batches train_dl))"
  using length_run_records [of env CrossEntropyLoss train_dl valid_dl "[0 ..< nat (epochs c)]"
      "initial env c" 0]
  by (simp add: run_records_plan)

lemma plan_completes:
  "completes train_dl valid_dl c \<Longrightarrow>
   take (n_logged train_dl valid_dl c) (run_plan env train_dl valid_dl c)
     = run_plan env train_dl valid_dl c"
  by (simp add: n_logged_def length_run_plan)

lemma length_processed_le:
  "\<not> completes train_dl valid_dl c \<Longrightarrow>
   length (processed train_dl valid_dl c) \<le> length (batches train_dl)"
  by (auto simp: processed_def completes_def length_trainable_le)

lemma processed_take:
  "\<not> completes train_dl valid_dl c \<Longrightarrow>
   processed train_dl valid_dl c
     = take (length (processed train_dl valid_dl c)) (batches train_dl)"
  using trainable_take [of "batches train_dl"]
  by (auto simp: processed_def completes_def)

lemma plan_prefix:
  assumes "\<not> completes train_dl valid_dl c"
  shows "take (n_logged train_dl valid_dl c) (run_plan env train_dl valid_dl c)
       = step_records env CrossEntropyLoss 0 (processed train_dl valid_dl c)
           (epoch_begin env (initial env c)) 0"
proof (cases "0 < epochs c")
  case False
  then show ?thesis
    using assms by (simp add: n_logged_def processed_def step_records_Nil)
next
  case True
  let ?k = "length (processed train_dl valid_dl c)"
  from True have "[0 ..< nat (epochs c)] = 0 # [Suc 0 ..< nat (epochs c)]"
    by (simp add: upt_conv_Cons)
  then have plan: "run_plan env train_dl valid_dl c
      = epoch_steps env train_dl c 0
        @ (epoch_val env train_dl valid_dl c 0
           # concat (map (\<lambda>e. epoch_steps env train_dl c e @ [epoch_val env train_dl valid_dl c e])
                        [Suc 0 ..< nat (epochs c)]))"
    by (simp add: run_plan_def)
  have k: "?k \<le> length (batches train_dl)" using assms by (rule length_processed_le)
  then have "take ?k (run_plan env train_dl valid_dl c) = take ?k (epoch_steps env train_dl c 0)"
    by (simp add: plan epoch_steps_def length_step_records)
  also have "\<dots> = step_records env CrossEntropyLoss 0 (take ?k (batches train_dl))
                      (epoch_begin env (initial env c)) 0"
    using k by (simp add: epoch_steps_def step_records_take entering_0)
  also have "take ?k (batches train_dl) = processed train_dl valid_dl c"
    using processed_take [OF assms] by simp
  finally show ?thesis using assms by (simp add: n_logged_def)
qed

lemma train_model_no_data:
  assumes "provider (batch_size (config_obj w0)) (slice_size (config_obj w0))
             (valid_pct (config_obj w0)) = Inl e"
  shows "train_model env provider w0 =
     (w0\<lparr>wandb_calls := wandb_calls w0 @ [Init ''dlai_intro'' (config_obj w0)]\<rparr>, Inl e)"
  using assms by (simp add: train_model_def wandb_init_def Let_def)

lemma train_model_run:
  assumes gd: "provider (batch_size (config_obj w0)) (slice_size (config_obj w0))
             (valid_pct (config_obj w0)) = Inr (train_dl, valid_dl)"
  shows "train_model env provider w0 =
     (w0\<lparr>wandb_calls := wandb_calls w0 @ Init ''dlai_intro'' (config_obj w0)
            # map Log (take (n_logged train_dl valid_dl (config_obj w0))
                         (run_plan env train_dl valid_dl (config_obj w0)))
            @ (if completes train_dl valid_dl (config_obj w0) then [Finish] else [])\<rparr>,
      if completes train_dl valid_dl (config_obj w0) then Inr ()
      else Inl (failure train_dl valid_dl (config_obj w0)))"
proof -
  let ?c = "config_obj w0"
  show ?thesis
  proof (cases "batch_size ?c = 0")
    case True
    then have nc: "\<not> completes train_dl valid_dl ?c" by (simp add: completes_def)
    have "processed train_dl valid_dl ?c = []" using True by (simp add: processed_def)
    with nc True gd show ?thesis
      by (simp add: train_model_def wandb_init_def Let_def n_steps_per_epoch_def
          plan_prefix step_records_Nil failure_def)
  next
    case bs: False
    show ?thesis
    proof (cases "completes train_dl valid_dl ?c")
      case True
      show ?thesis
      proof (cases "epochs ?c \<le> 0")
        case le: True
        then have "nat (epochs ?c) = 0" by simp
        with True gd bs show ?thesis
          by (simp add: train_model_def wandb_init_def wandb_finish_def Let_def
              n_steps_per_epoch_def n_logged_def run_plan_def)
      next
        case False
        with True have tr: "all_trainable (batches train_dl)" and ne: "dataset valid_dl \<noteq> []"
          by (simp_all add: completes_def)
        from True gd bs show ?thesis
          by (simp add: train_model_def wandb_init_def wandb_finish_def Let_def
              n_steps_per_epoch_def epoch_loop_ok [OF tr ne] initial_def [symmetric]
              run_records_plan plan_completes)
      qed
    next
      case nc: False
      with bs have pos: "0 < epochs ?c" by (auto simp: completes_def)
      then have up: "[0 ..< nat (epochs ?c)] = 0 # [Suc 0 ..< nat (epochs ?c)]"
        by (simp add: upt_conv_Cons)
      show ?thesis
      proof (cases "all_trainable (batches train_dl)")
        case tr: True
        with nc bs pos have emp: "dataset valid_dl = []" by (auto simp: completes_def)
        have pr: "processed train_dl valid_dl ?c = batches train_dl"
          using bs pos tr emp by (simp add: processed_def)
        from nc gd bs up tr show ?thesis
          by (simp add: train_model_def wandb_init_def Let_def n_steps_per_epoch_def
              epoch_loop_fail [OF tr emp] initial_def [symmetric] plan_prefix pr failure_def
              del: epoch_loop.simps)
      next
        case ntr: False
        have pr: "processed train_dl valid_dl ?c = trainable (batches train_dl)"
          using bs pos ntr by (simp add: processed_def)
        from nc gd bs up ntr show ?thesis
          by (simp add: train_model_def wandb_init_def Let_def n_steps_per_epoch_def
              epoch_loop_raise [OF ntr] initial_def [symmetric] plan_prefix pr failure_def
              del: epoch_loop.simps)
      qed
    qed
  qed
qed

lemma train_model_fresh:
  assumes "provider (batch_size c) (slice_size c) (valid_pct c) = Inr (train_dl, valid_dl)"
  shows "train_model env provider (fresh c) =
     (\<lparr>config_obj = c,
       wandb_calls = Init ''dlai_intro'' c
         # map Log (take (n_logged train_dl valid_dl c) (run_plan env train_dl valid_dl c))
         @ (if completes train_dl valid_dl c then [Finish] else [])\<rparr>,
      if completes train_dl valid_dl c then Inr () else Inl (failure train_dl valid_dl c))"
  using train_model_run [where provider = provider and ?w0.0 = "fresh c" and env = env
      and train_dl = train_dl and valid_dl = valid_dl] assms
  by (simp add: fresh_def)

lemma logged_fresh:
  assumes "provider (batch_size c) (slice_size c) (valid_pct c) = Inr (train_dl, valid_dl)"
  shows "logged (wandb_calls (fst (train_model env provider (fresh c))))
           = take (n_logged train_dl valid_dl c) (run_plan env train_dl valid_dl c)"
  by (simp add: train_model_fresh [where provider = provider, OF assms] logged_append logged_map_Log)

lemma plan_counts:
  assumes "dataset valid_dl \<noteq> [] \<or> epochs c \<le> 0"
  shows "length (filter is_train_record (run_plan env train_dl valid_dl c))
           = nat (epochs c) * length (batches train_dl)"
    and "length (filter is_val_record (run_plan env train_dl valid_dl c)) = nat (epochs c)"
proof -
  have "length (filter is_train_record (run_plan env train_dl valid_dl c))
           = nat (epochs c) * length (batches train_dl)
        \<and> length (filter is_val_record (run_plan env train_dl valid_dl c)) = nat (epochs c)"
  proof (cases "dataset valid_dl = []")
    case True
    with assms have "nat (epochs c) = 0" by simp
    then show ?thesis by (simp add: run_plan_def)
  next
    case False
    then show ?thesis
      using count_run_records [OF False, of env CrossEntropyLoss train_dl
          "[0 ..< nat (epochs c)]" "initial env c" 0]
      by (simp add: run_records_plan)
  qed
  then show "length (filter is_train_record (run_plan env train_dl valid_dl c))
           = nat (epochs c) * length (batches train_dl)"
    and "length (filter is_val_record (run_plan env train_dl valid_dl c)) = nat (epochs c)"
    by simp_all
qed

lemma logged_counts:
  assumes gd: "provider (batch_size c) (slice_size c) (valid_pct c) = Inr (train_dl, valid_dl)"
    and comp: "completes train_dl valid_dl c"
  shows "length (logged (wandb_calls (fst (train_model env provider (fresh c)))))
           = nat (epochs c) * Suc (length (batches train_dl))"
    and "length (filter is_train_record (logged (wandb_calls (fst (train_model env provider (fresh c))))))
           = nat (epochs c) * length (batches train_dl)"
    and "length (filter is_val_record (logged (wandb_calls (fst (train_model env provider (fresh c))))))
           = nat (epochs c)"
proof -
  have lg: "logged (wandb_calls (fst (train_model env provider (fresh c))))
          = run_plan env train_dl valid_dl c"
    by (simp add: logged_fresh [where provider = provider, OF gd] plan_completes [OF comp])
  from comp have ne: "dataset valid_dl \<noteq> [] \<or> epochs c \<le> 0" by (auto simp: completes_def)
  show "length (logged (wandb_calls (fst (train_model env provider (fresh c)))))
           = nat (epochs c) * Suc (length (batches train_dl))"
    by (simp add: lg length_run_plan)
  show "length (filter is_train_record (logged (wandb_calls (fst (train_model env provider (fresh c))))))
           = nat (epochs c) * length (batches train_dl)"
    by (simp add: lg plan_counts(1) [OF ne])
  show "length (filter is_val_record (logged (wandb_calls (fst (train_model env provider (fresh c))))))
           = nat (epochs c)"
    by (simp add: lg plan_counts(2) [OF ne])
qed

lemma example_cts_logged:
  assumes gd: "provider (batch_size c) (slice_size c) (valid_pct c) = Inr (train_dl, valid_dl)"
  shows "example_cts (wandb_calls (fst (train_model env provider (fresh c))))
           = running_sums 0 (processed train_dl valid_dl c)"
proof (cases "completes train_dl valid_dl c")
  case False
  then show ?thesis
    by (simp add: example_cts_def logged_fresh [where provider = provider, OF gd] plan_prefix
        example_cts_step_records)
next
  case True
  then have lg: "logged (wandb_calls (fst (train_model env provider (fresh c))))
          = run_plan env train_dl valid_dl c"
    by (simp add: logged_fresh [where provider = provider, OF gd] plan_completes)
  show ?thesis
  proof (cases "epochs c \<le> 0")
    case le: True
    then have "nat (epochs c) = 0" by simp
    then have "run_plan env train_dl valid_dl c = []" by (simp add: run_plan_def)
    with le show ?thesis
      by (simp add: example_cts_def lg processed_def List.map_filter_simps)
  next
    case False
    with True have bs: "batch_size c \<noteq> 0" and tr: "all_trainable (batches train_dl)"
      and ne: "dataset valid_dl \<noteq> []"
      by (simp_all add: completes_def)
    from False bs tr ne have pr: "processed train_dl valid_dl c
          = concat (replicate (nat (epochs c)) (batches train_dl))"
      by (simp add: processed_def)
    show ?thesis
      using example_cts_run_records [OF ne, of env CrossEntropyLoss train_dl
          "[0 ..< nat (epochs c)]" "initial env c" 0]
      by (simp add: example_cts_def lg pr run_records_plan)
  qed
qed

subsection \<open>Bounds on loss and accuracy\<close>

lemma exp_nth_le_sum: "y < length z \<Longrightarrow> exp (z ! y) \<le> (\<Sum>v \<leftarrow> z. exp v)" for z :: "real list"
proof (induction z arbitrary: y)
  case Nil
  then show ?case by simp
next
  case (Cons a z)
  have rest: "0 \<le> (\<Sum>v \<leftarrow> z. exp v)" by (rule sum_list_nonneg) auto
  show ?case
  proof (cases y)
    case 0
    with rest show ?thesis by simp
  next
    case (Suc k)
    with Cons.prems have "exp (z ! k) \<le> (\<Sum>v \<leftarrow> z. exp v)" by (intro Cons.IH) simp
    moreover have "0 \<le> exp a" by simp
    ultimately have "exp (z ! k) \<le> exp a + (\<Sum>v \<leftarrow> z. exp v)" by linarith
    then show ?thesis using Suc by simp
  qed
qed

lemma nll_nonneg: "y < length z \<Longrightarrow> 0 \<le> ln (\<Sum>v \<leftarrow> z. exp v) - z ! y" for z :: "real list"
proof -
  assume y: "y < length z"
  then have le: "exp (z ! y) \<le> (\<Sum>v \<leftarrow> z. exp v)" by (rule exp_nth_le_sum)
  have "0 < exp (z ! y)" by simp
  with le have pos: "0 < (\<Sum>v \<leftarrow> z. exp v)" by linarith
  from le pos have "z ! y \<le> ln (\<Sum>v \<leftarrow> z. exp v)" by (simp add: ln_ge_iff)
  then show ?thesis by simp
qed

lemma CrossEntropyLoss_nonneg:
  assumes "list_all (\<lambda>(z, y). y < length z) (zip outputs labels)"
  shows "0 \<le> CrossEntropyLoss outputs labels"
proof -
  have "0 \<le> (\<Sum>(z, y) \<leftarrow> zip outputs labels. ln (\<Sum>v \<leftarrow> z. exp v) - z ! y)"
  proof (rule sum_list_nonneg)
    fix t assume "t \<in> set (map (\<lambda>(z, y). ln (\<Sum>v \<leftarrow> z. exp v) - z ! y) (zip outputs labels))"
    then obtain z y where zy: "(z, y) \<in> set (zip outputs labels)"
      and t: "t = ln (\<Sum>v \<leftarrow> z. exp v) - z ! y" by auto
    from assms zy have "y < length z" by (auto simp: list_all_iff)
    then have "0 \<le> ln (\<Sum>v \<leftarrow> z. exp v) - z ! y" by (rule nll_nonneg)
    with t show "0 \<le> t" by simp
  qed
  then show ?thesis by (simp add: CrossEntropyLoss_def)
qed

lemma sum_labels_batches:
  "(\<Sum>(images, labels) \<leftarrow> batches dl. length labels) \<le> length (dataset dl)"
proof -
  have "(\<Sum>(images, labels) \<leftarrow> batches dl. length labels)
      = (\<Sum>c \<leftarrow> chunks (dl_batch_size dl) (dataset dl). length c)"
    by (simp add: batches_def o_def)
  then show ?thesis by (simp add: sum_length_chunks)
qed

lemma correct_le_labels:
  "(\<Sum>(images, labels) \<leftarrow> bs. length (filter P (zip (f images) labels)))
   \<le> (\<Sum>(images, labels) \<leftarrow> bs. length labels)"
proof (induction bs)
  case Nil
  then show ?case by simp
next
  case (Cons b bs)
  obtain images labels where b: "b = (images, labels)" by (cases b)
  have "length (filter P (zip (f images) labels)) \<le> length (zip (f images) labels)"
    by (rule length_filter_le)
  also have "\<dots> \<le> length labels" by simp
  finally show ?case using Cons.IH by (simp add: b)
qed

lemma weighted_loss_nonneg:
  assumes "list_all (\<lambda>(images, labels). 0 \<le> lf (f images) labels) bs"
  shows "0 \<le> (\<Sum>(images, labels) \<leftarrow> bs. lf (f images) labels * real (length labels))"
proof (rule sum_list_nonneg)
  fix t assume "t \<in> set (map (\<lambda>(images, labels). lf (f images) labels * real (length labels)) bs)"
  then obtain images labels where m: "(images, labels) \<in> set bs"
    and t: "t = lf (f images) labels * real (length labels)" by auto
  from assms m have "0 \<le> lf (f images) labels" by (auto simp: list_all_iff)
  with t show "0 \<le> t" by simp
qed

subsection \<open>Small runs, evaluated\<close>

lemma batches_valid_small: "batches valid_small = [([0, 1, 2], [0, 1, 1]), ([3], [1])]"
  by (simp add: batches_def valid_small_def four_def chunks_step chunks_Nil)

lemma dataset_valid_small: "dataset valid_small \<noteq> []" "length (dataset valid_small) = 4"
  by (simp_all add: valid_small_def four_def)

lemma well_shaped_valid_small: "well_shaped toy (eval_mode toy 0) valid_small"
  by (simp add: well_shaped_def batches_valid_small toy_def)



lemma gd_good:
  "get_dataloaders five (batch_size cfg_good) (slice_size cfg_good) (valid_pct cfg_good)
     = Inr (train_all, held_good)"
  by (simp add: get_dataloaders_def cfg_good_def cfg_small_def five_def train_all_def held_good_def)

lemma batches_train_small: "batches train_small = [([0, 1], [0, 1]), ([2], [1])]"
  by (simp add: batches_def train_small_def chunks_step chunks_Nil)

lemma batches_train_all: "batches train_all = [([0, 1], [0, 1]), ([2, 3], [1, 1])]"
  by (simp add: batches_def train_all_def chunks_step chunks_Nil)

lemma small_facts:
  "epochs cfg_small = 2" "epochs cfg_no_valid = 1" "epochs cfg_good = 2"
  "batch_size cfg_small = 2" "batch_size cfg_no_valid = 2" "batch_size cfg_good = 2"
  "dataset held_small \<noteq> []" "dataset held_none = []" "dataset held_good \<noteq> []"
  "length (dataset train_small) = 3" "length (dataset train_all) = 4"
  by (simp_all add: held_small_def held_none_def held_good_def cfg_small_def cfg_no_valid_def
      cfg_good_def train_small_def train_all_def)

lemma trainable_small:
  "trainable (batches train_small) = [([0, 1], [0, 1])]" "\<not> all_trainable (batches train_small)"
  "trainable (batches train_all) = batches train_all" "all_trainable (batches train_all)"
  by (simp_all add: batches_train_small batches_train_all trainable_Cons trainable_Nil)


lemma processed_small:
  "processed train_small held_small cfg_small = [([0, 1], [0, 1])]"
  "processed train_all held_none cfg_no_valid = [([0, 1], [0, 1]), ([2, 3], [1, 1])]"
  "processed train_all held_good cfg_good
     = [([0, 1], [0, 1]), ([2, 3], [1, 1]), ([0, 1], [0, 1]), ([2, 3], [1, 1])]"
proof -
  show "processed train_small held_small cfg_small = [([0, 1], [0, 1])]"
    by (simp add: processed_def small_facts trainable_small)
  have "processed train_all held_none cfg_no_valid = batches train_all"
    by (simp add: processed_def small_facts trainable_small)
  then show "processed train_all held_none cfg_no_valid = [([0, 1], [0, 1]), ([2, 3], [1, 1])]"
    by (simp add: batches_train_all)
  have "processed train_all held_good cfg_good = batches train_all @ batches train_all"
    by (simp add: processed_def small_facts trainable_small numeral_2_eq_2)
  then show "processed train_all held_good cfg_good
     = [([0, 1], [0, 1]), ([2, 3], [1, 1]), ([0, 1], [0, 1]), ([2, 3], [1, 1])]"
    by (simp add: batches_train_all)
qed


section \<open>The claims\<close>

subsection \<open>The evaluator\<close>

text \<open>
  C3. For every model, loss function and non-empty validation set,
  \<^verbatim>\<open>validate_model\<close> returns a pair: the sum over all batches of the batch loss
  times the batch size, divided by the size of the validation dataset; and the
  number of examples whose argmax over the logits equals the label, divided by
  the size of the validation dataset. The model is the one \<^verbatim>\<open>model.eval()\<close> leaves.
\<close>

theorem validate_model_means:
  assumes "dataset valid_dl \<noteq> []"
  shows "snd (validate_model env m valid_dl loss_func) =
     Inr ((\<Sum>(images, labels) \<leftarrow> batches valid_dl.
             loss_func (forward env (eval_mode env m) images) labels * real (length labels))
          / real (length (dataset valid_dl)),
          real (\<Sum>(images, labels) \<leftarrow> batches valid_dl.
             length (filter (\<lambda>(z, y). argmax z = y)
                       (zip (forward env (eval_mode env m) images) labels)))
          / real (length (dataset valid_dl)))"
  using assms by (rule validate_model_nonempty)

text \<open>
  On the four images in batches of three, with a loss function that is constantly
  2, the mean loss is 2 and three of the four predictions are right.
\<close>

theorem validate_model_means_witness:
  "dataset valid_small \<noteq> [] \<and>
   snd (validate_model toy 0 valid_small (\<lambda>outputs labels. 2)) = Inr (2, 3 / 4)"
proof -
  have ne: "dataset valid_small \<noteq> []" by (rule dataset_valid_small)
  have "snd (validate_model toy 0 valid_small (\<lambda>outputs labels. 2)) = Inr (2, 3 / 4)"
    using validate_model_means [OF ne, of toy 0 "\<lambda>outputs labels. 2"]
    by (simp add: batches_valid_small dataset_valid_small toy_def argmax_def)
  with ne show ?thesis by simp
qed

text \<open>
  C10. \<^verbatim>\<open>validate_model\<close> divides by the size of the validation dataset without a
  guard: on a non-empty validation dataset both divisions are defined and the
  call returns its pair, on an empty one the division raises
  \<^verbatim>\<open>ZeroDivisionError\<close>.
\<close>

theorem validate_model_division:
  "(dataset valid_dl \<noteq> [] \<longrightarrow> (\<exists>l a. snd (validate_model env m valid_dl loss_func) = Inr (l, a))) \<and>
   (dataset valid_dl = [] \<longrightarrow> snd (validate_model env m valid_dl loss_func) = Inl ZeroDivisionError)"
  by (simp add: validate_model_nonempty validate_model_empty)

theorem validate_model_division_witness:
  "dataset valid_small \<noteq> [] \<and>
   (\<exists>l a. snd (validate_model toy 0 valid_small CrossEntropyLoss) = Inr (l, a)) \<and>
   dataset (valid_small\<lparr>dataset := []\<rparr>) = [] \<and>
   snd (validate_model toy 0 (valid_small\<lparr>dataset := []\<rparr>) CrossEntropyLoss) = Inl ZeroDivisionError"
proof -
  have ne: "dataset valid_small \<noteq> []" by (rule dataset_valid_small)
  have em: "dataset (valid_small\<lparr>dataset := []\<rparr>) = []" by simp
  from ne em
    validate_model_division [of valid_small toy 0 CrossEntropyLoss]
    validate_model_division [of "valid_small\<lparr>dataset := []\<rparr>" toy 0 CrossEntropyLoss]
  show ?thesis by blast
qed

text \<open>
  C6. For every model and non-empty validation set, the accuracy that
  \<^verbatim>\<open>validate_model\<close> returns lies in \<open>[0, 1]\<close> and the validation loss is not
  negative. The loss function is the one \<^verbatim>\<open>train_model\<close> passes, cross entropy,
  on well-shaped batches.
\<close>

theorem validate_model_bounds:
  assumes ne: "dataset valid_dl \<noteq> []"
    and ws: "well_shaped env (eval_mode env m) valid_dl"
  shows "\<exists>val_loss accuracy.
           snd (validate_model env m valid_dl CrossEntropyLoss) = Inr (val_loss, accuracy) \<and>
           0 \<le> val_loss \<and> 0 \<le> accuracy \<and> accuracy \<le> 1"
proof -
  let ?m = "eval_mode env m" and ?n = "length (dataset valid_dl)"
  let ?loss = "\<Sum>(images, labels) \<leftarrow> batches valid_dl.
                 CrossEntropyLoss (forward env ?m images) labels * real (length labels)"
  let ?correct = "\<Sum>(images, labels) \<leftarrow> batches valid_dl.
                 length (filter (\<lambda>(z, y). argmax z = y) (zip (forward env ?m images) labels))"
  from ne have n: "0 < ?n" by simp
  have res: "snd (validate_model env m valid_dl CrossEntropyLoss)
             = Inr (?loss / real ?n, real ?correct / real ?n)"
    using ne by (rule validate_model_nonempty)
  have "list_all (\<lambda>(images, labels). 0 \<le> CrossEntropyLoss (forward env ?m images) labels)
          (batches valid_dl)"
    using ws by (auto simp: well_shaped_def list_all_iff intro!: CrossEntropyLoss_nonneg)
  then have "0 \<le> ?loss" by (rule weighted_loss_nonneg)
  then have l: "0 \<le> ?loss / real ?n" by simp
  have "?correct \<le> (\<Sum>(images, labels) \<leftarrow> batches valid_dl. length labels)"
    by (rule correct_le_labels)
  also have "\<dots> \<le> ?n" by (rule sum_labels_batches)
  finally have "real ?correct \<le> real ?n" by simp
  with n have a: "real ?correct / real ?n \<le> 1" by simp
  have "0 \<le> real ?correct / real ?n" by simp
  with res l a show ?thesis by blast
qed

theorem validate_model_bounds_witness:
  "dataset valid_small \<noteq> [] \<and> well_shaped toy (eval_mode toy 0) valid_small \<and>
   (\<exists>val_loss accuracy.
      snd (validate_model toy 0 valid_small CrossEntropyLoss) = Inr (val_loss, accuracy) \<and>
      0 \<le> val_loss \<and> 0 \<le> accuracy \<and> accuracy \<le> 1)"
  using validate_model_bounds [OF dataset_valid_small(1) well_shaped_valid_small]
    dataset_valid_small(1) well_shaped_valid_small
  by blast

subsection \<open>The trainer\<close>

text \<open>
  C8. Whatever the configuration, the data provider and the learner, the
  configuration object is the same after \<^verbatim>\<open>train_model\<close> as before it, field by
  field, whether the run completes or an exception ends it.
\<close>

theorem train_model_keeps_config:
  "config_obj (fst (train_model env provider w0)) = config_obj w0"
proof (cases "provider (batch_size (config_obj w0)) (slice_size (config_obj w0))
                (valid_pct (config_obj w0))")
  case (Inl e)
  then show ?thesis by (simp add: train_model_no_data)
next
  case (Inr p)
  then obtain train_dl valid_dl where
    gd: "provider (batch_size (config_obj w0)) (slice_size (config_obj w0))
           (valid_pct (config_obj w0)) = Inr (train_dl, valid_dl)"
    by (cases p) simp
  show ?thesis
    by (simp add: train_model_run [where provider = provider, OF gd])
qed







text \<open>
  C2. With epochs = 1, batch_size = 128, slice_size = 10000 and valid_pct = 0.2
  (and at least 10000 examples to sample from) the training dataset of the
  spec's data provider has 8000 examples, and \<^verbatim>\<open>train_model\<close> logs exactly 63
  training-step records and exactly one validation record.
\<close>

theorem example_scenario_counts:
  assumes data: "10000 \<le> length data"
    and c: "epochs c = 1" "batch_size c = 128" "slice_size c = 10000" "valid_pct c = 2 / 10"
  shows "\<exists>train_dl valid_dl.
           get_dataloaders data (batch_size c) (slice_size c) (valid_pct c) = Inr (train_dl, valid_dl)
           \<and> length (dataset train_dl) = 8000
           \<and> n_steps_per_epoch (length (dataset train_dl)) (batch_size c) = Inr 63
           \<and> length (filter is_train_record
                       (logged (wandb_calls (fst (train_model env (get_dataloaders data) (fresh c)))))) = 63
           \<and> length (filter is_val_record
                       (logged (wandb_calls (fst (train_model env (get_dataloaders data) (fresh c)))))) = 1"
proof -
  from data c obtain train_dl valid_dl where
    gd: "get_dataloaders data (batch_size c) (slice_size c) (valid_pct c) = Inr (train_dl, valid_dl)"
    by (simp add: get_dataloaders_def Let_def)
  from get_dataloaders_Inr(2,4,5) [OF gd] c have
    db: "dl_batch_size train_dl = 128"
    and lv: "length (dataset valid_dl) = 2000" and lt: "length (dataset train_dl) = 8000"
    by simp_all
  from lv have ne: "dataset valid_dl \<noteq> []" by auto
  have tr: "all_trainable (batches train_dl)"
    by (rule all_trainable_batches) (simp_all add: db lt)
  from tr ne have comp: "completes train_dl valid_dl c" by (simp add: completes_def c)
  have n: "\<lceil>real (length (dataset train_dl)) / real_of_int (batch_size c)\<rceil> = 63"
    by (simp add: lt c)
  with steps_per_epoch [OF gd] have
    st: "n_steps_per_epoch (length (dataset train_dl)) (batch_size c) = Inr 63"
    and nb: "length (batches train_dl) = 63" by simp_all
  note counts = logged_counts [where provider = "get_dataloaders data" and env = env, OF gd comp]
  have trc: "length (filter is_train_record
                      (logged (wandb_calls (fst (train_model env (get_dataloaders data) (fresh c)))))) = 63"
    by (simp add: counts(2) nb c)
  have va: "length (filter is_val_record
                      (logged (wandb_calls (fst (train_model env (get_dataloaders data) (fresh c)))))) = 1"
    by (simp add: counts(3) c)
  from gd lt st trc va show ?thesis by blast
qed

theorem example_scenario_counts_witness:
  "10000 \<le> length (replicate 10000 (0::nat, 0::nat))
   \<and> epochs cfg_example = 1 \<and> batch_size cfg_example = 128
   \<and> slice_size cfg_example = 10000 \<and> valid_pct cfg_example = 2 / 10
   \<and> length (filter is_train_record
               (logged (wandb_calls (fst (train_model toy (get_dataloaders (replicate 10000 (0, 0)))
                                            (fresh cfg_example)))))) = 63
   \<and> length (filter is_val_record
               (logged (wandb_calls (fst (train_model toy (get_dataloaders (replicate 10000 (0, 0)))
                                            (fresh cfg_example)))))) = 1"
proof -
  have d: "10000 \<le> length (replicate 10000 (0::nat, 0::nat))" by simp
  have c: "epochs cfg_example = 1" "batch_size cfg_example = 128"
    "slice_size cfg_example = 10000" "valid_pct cfg_example = 2 / 10"
    by (simp_all add: cfg_example_def)
  from example_scenario_counts [OF d c, of toy] d c show ?thesis by blast
qed

text \<open>
  C5. Throughout a run of \<^verbatim>\<open>train_model\<close> the logged example counts never
  decrease from one training step to the next, there is one for every batch the
  run trains on, and the count logged at a step is the sum of the sizes of all
  batches trained on up to and including that step.
\<close>

theorem example_ct_running_sum:
  assumes gd: "provider (batch_size c) (slice_size c) (valid_pct c) = Inr (train_dl, valid_dl)"
  shows "sorted (example_cts (wandb_calls (fst (train_model env provider (fresh c)))))
         \<and> length (example_cts (wandb_calls (fst (train_model env provider (fresh c)))))
             = length (processed train_dl valid_dl c)
         \<and> (\<forall>k < length (processed train_dl valid_dl c).
               example_cts (wandb_calls (fst (train_model env provider (fresh c)))) ! k
                 = seen (take (Suc k) (processed train_dl valid_dl c)))"
  by (simp add: example_cts_logged [where provider = provider, OF gd] sorted_running_sums
      length_running_sums running_sums_nth)

theorem example_ct_running_sum_witness:
  "get_dataloaders five (batch_size cfg_good) (slice_size cfg_good) (valid_pct cfg_good)
     = Inr (train_all, held_good)
   \<and> sorted (example_cts (wandb_calls (fst (train_model toy (get_dataloaders five) (fresh cfg_good)))))
   \<and> length (example_cts (wandb_calls (fst (train_model toy (get_dataloaders five) (fresh cfg_good))))) = 4
   \<and> example_cts (wandb_calls (fst (train_model toy (get_dataloaders five) (fresh cfg_good)))) ! 2 = 6"
proof -
  note sums = example_ct_running_sum [where provider = "get_dataloaders five" and env = toy,
      OF gd_good]
  have "(2::nat) < length (processed train_all held_good cfg_good)"
    by (simp add: processed_small)
  with sums have "example_cts (wandb_calls (fst (train_model toy (get_dataloaders five) (fresh cfg_good)))) ! 2
                  = seen (take (Suc 2) (processed train_all held_good cfg_good))"
    by blast
  then have third: "example_cts (wandb_calls (fst (train_model toy (get_dataloaders five) (fresh cfg_good)))) ! 2 = 6"
    by (simp add: processed_small seen_def)
  from sums have len: "length (example_cts (wandb_calls (fst (train_model toy (get_dataloaders five) (fresh cfg_good))))) = 4"
    by (simp add: processed_small)
  from sums gd_good third len show ?thesis by blast
qed

text \<open>
  C7. For every epoch \<open>e\<close> (counted from 0) and every training step \<open>s\<close> of it that
  the run reaches, the record logged for that step has exactly three entries: the
  cross-entropy loss of the model, as it is before the step, on the batch of the
  step; the epoch number \<open>e + 1\<close>; and the example count after the step. The step
  is reached when the model raises on none of the batches up to it and, for a
  later epoch than the first, the epochs before it went through.
\<close>

theorem step_record_contents:
  assumes gd: "provider (batch_size c) (slice_size c) (valid_pct c) = Inr (train_dl, valid_dl)"
    and bs: "batch_size c \<noteq> 0"
    and e: "e < nat (epochs c)"
    and s: "s < length (trainable (batches train_dl))"
    and reached: "e = 0 \<or> all_trainable (batches train_dl) \<and> dataset valid_dl \<noteq> []"
  shows "logged (wandb_calls (fst (train_model env provider (fresh c))))
           ! (e * Suc (length (batches train_dl)) + s)
         = [(''train/train_loss'',
               FloatV (CrossEntropyLoss
                         (forward env
                            (fst (steps_state env (take s (batches train_dl))
                                    (epoch_begin env (entering env train_dl c e))))
                            (fst (batches train_dl ! s)))
                         (snd (batches train_dl ! s)))),
            (''train/epoch'', IntV (int e + 1)),
            (''train/example_ct'',
               IntV (int e * seen (batches train_dl) + seen (take (Suc s) (batches train_dl))))]"
proof -
  let ?n = "length (batches train_dl)"
  let ?i = "e * Suc ?n + s"
  from s length_trainable_le [of "batches train_dl"] have sn: "s < ?n" by simp
  from e have pos: "0 < epochs c" by simp
  have i: "?i < n_logged train_dl valid_dl c"
  proof (cases "completes train_dl valid_dl c")
    case True
    from e have "Suc e \<le> nat (epochs c)" by simp
    then have "Suc e * Suc ?n \<le> nat (epochs c) * Suc ?n" by (rule mult_le_mono1)
    with sn have "?i < nat (epochs c) * Suc ?n" by simp
    with True show ?thesis by (simp add: n_logged_def)
  next
    case False
    with bs pos reached have e0: "e = 0" by (auto simp: completes_def)
    show ?thesis
    proof (cases "all_trainable (batches train_dl)")
      case True
      with False bs pos have "processed train_dl valid_dl c = batches train_dl"
        by (auto simp: processed_def completes_def)
      with False e0 sn show ?thesis by (simp add: n_logged_def)
    next
      case ntr: False
      with bs pos have "processed train_dl valid_dl c = trainable (batches train_dl)"
        by (simp add: processed_def)
      with False e0 s show ?thesis by (simp add: n_logged_def)
    qed
  qed
  have "logged (wandb_calls (fst (train_model env provider (fresh c)))) ! ?i
          = run_plan env train_dl valid_dl c ! ?i"
    using i by (simp add: logged_fresh [where provider = provider, OF gd])
  also have "\<dots> = run_records env CrossEntropyLoss train_dl valid_dl [0 ..< nat (epochs c)]
                      (initial env c) 0 ! ?i"
    by (simp add: run_records_plan)
  finally show ?thesis
    using run_records_nth [OF e sn, of env CrossEntropyLoss valid_dl "initial env c" 0]
    by (simp add: step_record_def entering_def)
qed

theorem step_record_contents_witness:
  "get_dataloaders five (batch_size cfg_good) (slice_size cfg_good) (valid_pct cfg_good)
     = Inr (train_all, held_good)
   \<and> batch_size cfg_good \<noteq> 0
   \<and> (1::nat) < nat (epochs cfg_good) \<and> (1::nat) < length (trainable (batches train_all))
   \<and> all_trainable (batches train_all) \<and> dataset held_good \<noteq> []
   \<and> logged (wandb_calls (fst (train_model toy (get_dataloaders five) (fresh cfg_good)))) ! 4
       = [(''train/train_loss'', FloatV (CrossEntropyLoss [[1, 0], [0, 1]] [1, 1])),
          (''train/epoch'', IntV 2),
          (''train/example_ct'', IntV 8)]"
proof -
  have b: "batch_size cfg_good \<noteq> 0" by (simp add: small_facts)
  have e: "(1::nat) < nat (epochs cfg_good)" by (simp add: small_facts)
  have "length (batches train_all) = 2" by (simp add: batches_train_all)
  then have s: "(1::nat) < length (trainable (batches train_all))"
    by (simp add: trainable_small(3))
  have r: "(1::nat) = 0 \<or> all_trainable (batches train_all) \<and> dataset held_good \<noteq> []"
    by (simp add: small_facts trainable_small)
  have idx: "1 * Suc (length (batches train_all)) + 1 = 4" by (simp add: batches_train_all)
  have fw: "forward toy m xs = map (\<lambda>x. if odd x then [0, 1] else [1, 0]) xs" for m xs
    by (simp add: toy_def)
  have "logged (wandb_calls (fst (train_model toy (get_dataloaders five) (fresh cfg_good)))) ! 4
       = [(''train/train_loss'', FloatV (CrossEntropyLoss [[1, 0], [0, 1]] [1, 1])),
          (''train/epoch'', IntV 2),
          (''train/example_ct'', IntV 8)]"
    using step_record_contents [where provider = "get_dataloaders five" and env = toy,
        OF gd_good b e s r, unfolded idx]
    by (simp add: batches_train_all seen_def fw)
  with gd_good b e s trainable_small(4) small_facts(9) show ?thesis by blast
qed

end
